theory Spec2Isabelle
  imports Main
begin

section \<open>PubMed shard extraction: \<open>parse_pubmed_local.py\<close>\<close>

text \<open>
  A shallow embedding of \<open>src/bioasq/28.01.26/parse_pubmed_local.py\<close>. The script
  reads a gzip-compressed XML shard with \<open>lxml.etree.iterparse\<close>, turns every
  \<open>MedlineCitation\<close> element into a record and every \<open>PMID\<close> child of a
  \<open>DeleteCitation\<close> element into a tombstone, and writes the records as lines of a
  JSONL file that is renamed into place at the end.

  Strings are \<open>string\<close>; a \<open>char\<close> stands for a code point below 256.
\<close>

subsection \<open>Strings as Python handles them\<close>

text \<open>
  \<open>str.isspace\<close> on the code points below 256: TAB, LF, VT, FF, CR, the four
  separators FS, GS, RS, US, the space, NEL (133) and the no-break space (160).
\<close>

definition py_isspace :: "char \<Rightarrow> bool" where
  "py_isspace c = ((of_char c :: nat) \<in> {9, 10, 11, 12, 13, 28, 29, 30, 31, 32, 133, 160})"

text \<open>\<open>s.strip()\<close>: leading and trailing whitespace removed.\<close>

definition py_strip :: "string \<Rightarrow> string" where
  "py_strip s = rev (dropWhile py_isspace (rev (dropWhile py_isspace s)))"

text \<open>\<open>sep.join(xs)\<close>.\<close>

fun str_join :: "string \<Rightarrow> string list \<Rightarrow> string" where
  "str_join sep [] = []"
| "str_join sep [x] = x"
| "str_join sep (x # y # ys) = x @ sep @ str_join sep (y # ys)"

text \<open>Truthiness of an optional string (\<open>None\<close> and \<open>""\<close> are false) and \<open>x or ""\<close>.\<close>

fun truthy :: "string option \<Rightarrow> bool" where
  "truthy None = False"
| "truthy (Some s) = (s \<noteq> [])"

fun or_empty :: "string option \<Rightarrow> string" where
  "or_empty None = []"
| "or_empty (Some s) = s"

subsection \<open>The element tree of lxml\<close>

text \<open>
  An element has a tag, attributes, the text before its first child, its children and
  the text that follows its closing tag (its tail). Comments and processing
  instructions, which \<open>iterparse\<close> keeps in the tree but never reports for
  \<open>events=("end",)\<close>, are left out of the model: a document is a tree of elements.
\<close>

datatype xml =
  Elem (tag: string) (attrib: "(string \<times> string) list") (etext: "string option")
       (children: "xml list") (tail: "string option")

text \<open>\<open>elem.clear()\<close>: children, attributes, text and tail go; the tag stays.\<close>

definition clear :: "xml \<Rightarrow> xml" where
  "clear e = Elem (tag e) [] None [] None"

text \<open>\<open>elem.attrib.get(k, "")\<close>.\<close>

definition attrib_get :: "xml \<Rightarrow> string \<Rightarrow> string" where
  "attrib_get e k = (case map_of (attrib e) k of None \<Rightarrow> [] | Some v \<Rightarrow> v)"

text \<open>
  ElementPath. \<open>findall_path e [t1, ..., tn]\<close> is \<open>e.findall("t1/.../tn")\<close>: the
  matches in document order; \<open>find_path\<close> is \<open>e.find\<close>, the first match or
  \<open>None\<close>.
\<close>

fun findall_path :: "xml \<Rightarrow> string list \<Rightarrow> xml list" where
  "findall_path e [] = [e]"
| "findall_path e (t # ts) =
     concat (map (\<lambda>c. findall_path c ts) (filter (\<lambda>c. tag c = t) (children e)))"

definition first_of :: "'a list \<Rightarrow> 'a option" where
  "first_of xs = (case xs of [] \<Rightarrow> None | x # _ \<Rightarrow> Some x)"

definition find_path :: "xml \<Rightarrow> string list \<Rightarrow> xml option" where
  "find_path e ts = first_of (findall_path e ts)"

text \<open>\<open>e.find('t[@k="v"]')\<close>: the first child with tag \<open>t\<close> whose attribute \<open>k\<close> is \<open>v\<close>.\<close>

definition find_attr :: "xml \<Rightarrow> string \<Rightarrow> string \<Rightarrow> string \<Rightarrow> xml option" where
  "find_attr e t k v =
     first_of (filter (\<lambda>c. tag c = t \<and> map_of (attrib c) k = Some v) (children e))"

text \<open>\<open>e.iterdescendants(t)\<close>: the descendants with tag \<open>t\<close>, in document order, \<open>e\<close> excluded.\<close>

fun descendants :: "xml \<Rightarrow> xml list" where
  "descendants (Elem t a x cs tx) = concat (map (\<lambda>c. c # descendants c) cs)"

text \<open>\<open>e.findall(".//t1/t2")\<close>.\<close>

definition findall_desc :: "xml \<Rightarrow> string \<Rightarrow> string \<Rightarrow> xml list" where
  "findall_desc e t1 t2 =
     concat (map (\<lambda>d. findall_path d [t2]) (filter (\<lambda>d. tag d = t1) (descendants e)))"

text \<open>
  \<open>e.itertext()\<close>: the text of \<open>e\<close>, then for each child its own \<open>itertext\<close> followed by
  its tail; absent texts are skipped and the tail of \<open>e\<close> itself is not part of it.
\<close>

fun opt_list :: "'a option \<Rightarrow> 'a list" where
  "opt_list None = []"
| "opt_list (Some x) = [x]"

fun itertext :: "xml \<Rightarrow> string list" where
  "itertext (Elem t a x cs tx) =
     opt_list x @ concat (map (\<lambda>c. itertext c @ opt_list (tail c)) cs)"

subsection \<open>The optional library \<open>pubmed_parser\<close>\<close>

text \<open>
  \<open>pubmed_parser\<close> is imported when it is installed (\<open>pp\<close> is \<open>None\<close> otherwise).
  It is not part of the repository: the two functions the script calls are parameters.
  A call either raises or returns a value, which may be \<open>None\<close>.
\<close>

datatype 'a outcome = Raises | Returns 'a

record pubmed_parser =
  stringify_children :: "xml \<Rightarrow> string option outcome"
  pp_parse_keywords :: "xml \<Rightarrow> string list option outcome"

subsection \<open>Field extraction\<close>

text \<open>The fallback of \<open>_stringify\<close> (its last line): the stripped non-blank texts, joined by spaces.\<close>

definition flatten :: "xml \<Rightarrow> string" where
  "flatten node =
     py_strip (str_join '' ''
       (map py_strip (filter (\<lambda>t. t \<noteq> [] \<and> py_strip t \<noteq> []) (itertext node))))"

fun stringify :: "pubmed_parser option \<Rightarrow> xml option \<Rightarrow> string" where
  "stringify pp None = []"
| "stringify None (Some node) = flatten node"
| "stringify (Some lib) (Some node) =
     (case stringify_children lib node of
        Returns r \<Rightarrow> py_strip (or_empty r)
      | Raises \<Rightarrow> flatten node)"

text \<open>One \<open>MeshHeading\<close> of \<open>parse_mesh_terms\<close>: the items it appends to \<open>out\<close>.\<close>

definition mesh_item :: "xml \<Rightarrow> string list" where
  "mesh_item mh =
     (case find_path mh [''DescriptorName''] of
        None \<Rightarrow> []
      | Some d \<Rightarrow>
          (let ui = attrib_get d ''UI''; txt = py_strip (or_empty (etext d))
           in if ui \<noteq> [] \<and> txt \<noteq> [] then [ui @ '':'' @ txt]
              else if txt \<noteq> [] then [txt] else []))"

definition parse_mesh_terms :: "xml \<Rightarrow> string" where
  "parse_mesh_terms medline =
     (case find_path medline [''MeshHeadingList''] of
        None \<Rightarrow> []
      | Some mesh_list \<Rightarrow>
          str_join ''; '' (concat (map mesh_item (findall_path mesh_list [''MeshHeading'']))))"

text \<open>The lines of \<open>parse_pmid\<close> after the comment \<open># fallback\<close>.\<close>

definition pmid_fallback :: "xml \<Rightarrow> string" where
  "pmid_fallback medline =
     (case find_path medline [''PubmedData'', ''ArticleIdList''] of
        None \<Rightarrow> []
      | Some article_ids \<Rightarrow>
          (case find_attr article_ids ''ArticleId'' ''IdType'' ''pubmed'' of
             None \<Rightarrow> []
           | Some x \<Rightarrow> if truthy (etext x) then py_strip (or_empty (etext x)) else []))"

definition parse_pmid :: "xml \<Rightarrow> string" where
  "parse_pmid medline =
     (case find_path medline [''PMID''] of
        Some pmid \<Rightarrow>
          if truthy (etext pmid) then py_strip (or_empty (etext pmid))
          else pmid_fallback medline
      | None \<Rightarrow> pmid_fallback medline)"

text \<open>The loop of \<open>parse_keywords\<close> after the \<open>pubmed_parser\<close> attempt.\<close>

definition keywords_fallback :: "xml \<Rightarrow> string list" where
  "keywords_fallback medline =
     filter (\<lambda>t. t \<noteq> [])
       (map (\<lambda>kw. py_strip (or_empty (etext kw))) (findall_desc medline ''KeywordList'' ''Keyword''))"

fun parse_keywords :: "pubmed_parser option \<Rightarrow> xml \<Rightarrow> string list" where
  "parse_keywords None medline = keywords_fallback medline"
| "parse_keywords (Some lib) medline =
     (case pp_parse_keywords lib medline of
        Returns (Some kws) \<Rightarrow> kws
      | Returns None \<Rightarrow> []
      | Raises \<Rightarrow> keywords_fallback medline)"

text \<open>The items one \<open>AbstractText\<close> segment appends to \<open>parts\<close> in \<open>parse_title_abstract\<close>.\<close>

definition segment_label :: "xml \<Rightarrow> string" where
  "segment_label a =
     (if attrib_get a ''Label'' \<noteq> [] then attrib_get a ''Label''
      else attrib_get a ''NlmCategory'')"

definition segment_parts :: "pubmed_parser option \<Rightarrow> xml \<Rightarrow> string list" where
  "segment_parts pp a =
     (let label = segment_label a
      in (if label \<noteq> [] \<and> label \<noteq> ''UNASSIGNED'' then [label] else [])
         @ [stringify pp (Some a)])"

text \<open>\<open>parse_title_abstract\<close> returns the pair (title, abstract).\<close>

definition parse_title_abstract :: "pubmed_parser option \<Rightarrow> xml \<Rightarrow> string \<times> string" where
  "parse_title_abstract pp medline =
     (case find_path medline [''Article''] of
        None \<Rightarrow> ([], [])
      | Some article \<Rightarrow>
          (let title = stringify pp (find_path article [''ArticleTitle'']);
               abs_texts = findall_path article [''Abstract'', ''AbstractText'']
           in (title,
               (case abs_texts of
                  [] \<Rightarrow> stringify pp (find_path article [''Abstract''])
                | [a] \<Rightarrow> stringify pp (Some a)
                | _ \<Rightarrow>
                    py_strip (str_join [CHR 0x0A]
                      (filter (\<lambda>p. p \<noteq> []) (concat (map (segment_parts pp) abs_texts))))))))"

text \<open>
  The dictionary of one output line. Its key \<open>"keywords"\<close> is the field
  \<open>keyword_list\<close> here.
\<close>

record jrecord =
  pmid :: string
  docno :: string
  title :: string
  abstract :: string
  mesh_terms :: string
  keyword_list :: "string list"
  is_deleted :: bool

definition parse_article_record :: "pubmed_parser option \<Rightarrow> xml \<Rightarrow> jrecord option" where
  "parse_article_record pp medline =
     (let p = parse_pmid medline
      in if p = [] then None
         else (let ta = parse_title_abstract pp medline
               in Some \<lparr>pmid = p, docno = p, title = fst ta, abstract = snd ta,
                        mesh_terms = parse_mesh_terms medline,
                        keyword_list = parse_keywords pp medline, is_deleted = False\<rparr>))"

text \<open>The tombstone of one identifier (the dictionary of lines 155 to 163).\<close>

definition tombstone :: "string \<Rightarrow> jrecord" where
  "tombstone p = \<lparr>pmid = p, docno = p, title = [], abstract = [], mesh_terms = [],
                  keyword_list = [], is_deleted = True\<rparr>"

subsection \<open>The reader: \<open>gzip.open\<close> and \<open>etree.iterparse\<close>\<close>

text \<open>
  The decompressed content of a shard is a sequence of markup tokens: an opening tag,
  character data, a closing tag. \<open>Malformed\<close> stands for a markup defect that a
  recovering parser could skip (an unbalanced tag, an invalid entity). The last three
  tokens stand for the point where the compressed stream itself cannot be decompressed
  any further: the stream ends before its end-of-stream marker (\<open>Truncated\<close>,
  \<open>gzip\<close> raises \<open>EOFError\<close>), a member has a bad header or check sum
  (\<open>BadGzip\<close>, \<open>gzip.BadGzipFile\<close>, an \<open>OSError\<close>), or the deflate data are
  invalid (\<open>BadDeflate\<close>, \<open>zlib.error\<close>).
\<close>

datatype token =
  Start string "(string \<times> string) list"
| Chars string
| End
| Malformed
| Truncated
| BadGzip
| BadDeflate

datatype py_error = XMLSyntaxError | EOFError | OSError | ZlibError | ValueError

text \<open>
  The state of the incremental parser: the elements that are still open, innermost
  first, each with the children it has received so far; the root element once it is
  closed; and whether the loop body cleared the element that was closed last.
\<close>

record pstate =
  stack :: "xml list"
  root :: "xml option"
  cleared :: bool

definition initial :: pstate where
  "initial = \<lparr>stack = [], root = None, cleared = False\<rparr>"

fun append_opt :: "string option \<Rightarrow> string \<Rightarrow> string option" where
  "append_opt None s = Some s"
| "append_opt (Some a) s = Some (a @ s)"

text \<open>
  Character data belongs to the text of the open element while it has no child, and
  to the tail of its last child afterwards.
\<close>

definition add_chars :: "string \<Rightarrow> xml \<Rightarrow> xml" where
  "add_chars s e =
     (case rev (children e) of
        [] \<Rightarrow> Elem (tag e) (attrib e) (append_opt (etext e) s) [] (tail e)
      | c # front \<Rightarrow>
          Elem (tag e) (attrib e) (etext e)
            (rev front @ [Elem (tag c) (attrib c) (etext c) (children c) (append_opt (tail c) s)])
            (tail e))"

definition add_child :: "xml \<Rightarrow> xml \<Rightarrow> xml" where
  "add_child c e = Elem (tag e) (attrib e) (etext e) (children e @ [c]) (tail e)"

definition xml_space :: "char \<Rightarrow> bool" where
  "xml_space c = ((of_char c :: nat) \<in> {9, 10, 13, 32})"

text \<open>
  The body of the loop of \<open>iter_records_from_xml_gz\<close> (lines 145 to 169) for one
  \<open>end\<close> event: the records it yields and the element as it leaves it.
\<close>

definition tombstones :: "xml \<Rightarrow> jrecord list" where
  "tombstones elem =
     map (\<lambda>pmid_node. tombstone (py_strip (or_empty (etext pmid_node))))
       (filter (\<lambda>pmid_node. truthy (etext pmid_node) \<and> py_strip (or_empty (etext pmid_node)) \<noteq> [])
          (findall_path elem [''PMID'']))"

definition loop_body :: "pubmed_parser option \<Rightarrow> xml \<Rightarrow> jrecord list \<times> xml" where
  "loop_body pp elem =
     (if tag elem = ''MedlineCitation'' then
        (opt_list (parse_article_record pp elem), clear elem)
      else if tag elem = ''DeleteCitation'' then
        (tombstones elem, clear elem)
      else if 1000 < length (children elem) then ([], clear elem)
      else ([], elem))"

text \<open>Whether the branch of the loop body that handles \<open>elem\<close> calls \<open>elem.clear()\<close>.\<close>

definition released :: "xml \<Rightarrow> bool" where
  "released elem =
     (tag elem = ''MedlineCitation'' \<or> tag elem = ''DeleteCitation''
      \<or> 1000 < length (children elem))"

text \<open>
  One token. Line 144 calls \<open>etree.iterparse(fh, events=("end",))\<close>: the parser
  object of line 142 (\<open>recover=True, huge_tree=True\<close>) is never handed to it, so the
  reader runs with the defaults of \<open>iterparse\<close>, where \<open>recover\<close> is off for XML
  and any markup defect raises \<open>XMLSyntaxError\<close>. The loop body runs for the closing
  tag; the element stays a child of its parent whatever the body did to it. lxml
  builds the tree ahead of the events it hands out, so the text after the closing tag
  is already the tail of the element when the body sees it, and \<open>elem.clear()\<close>
  removes it with the rest: the character data that follows a cleared element is
  dropped.
\<close>

fun feed :: "pubmed_parser option \<Rightarrow> pstate \<Rightarrow> token \<Rightarrow> py_error + (jrecord list \<times> pstate)" where
  "feed pp st Malformed = Inl XMLSyntaxError"
| "feed pp st Truncated = Inl EOFError"
| "feed pp st BadGzip = Inl OSError"
| "feed pp st BadDeflate = Inl ZlibError"
| "feed pp st (Start t a) =
     (if stack st = [] \<and> root st \<noteq> None then Inl XMLSyntaxError
      else Inr ([], st\<lparr>stack := Elem t a None [] None # stack st, cleared := False\<rparr>))"
| "feed pp st (Chars s) =
     (case stack st of
        [] \<Rightarrow> if list_all xml_space s then Inr ([], st) else Inl XMLSyntaxError
      | e # es \<Rightarrow>
          if cleared st then Inr ([], st)
          else Inr ([], st\<lparr>stack := add_chars s e # es\<rparr>))"
| "feed pp st End =
     (case stack st of
        [] \<Rightarrow> Inl XMLSyntaxError
      | e # es \<Rightarrow>
          (let (recs, e') = loop_body pp e
           in case es of
                [] \<Rightarrow> Inr (recs, \<lparr>stack = [], root = Some e', cleared = released e\<rparr>)
              | p # ps \<Rightarrow>
                  Inr (recs, st\<lparr>stack := add_child e' p # ps, cleared := released e\<rparr>)))"

text \<open>
  The tokens in order. The generator is lazy: the records yielded before an error
  have reached the consumer when the error is raised.
\<close>

fun feed_all :: "pubmed_parser option \<Rightarrow> pstate \<Rightarrow> token list
    \<Rightarrow> jrecord list \<times> (py_error + pstate)" where
  "feed_all pp st [] = ([], Inr st)"
| "feed_all pp st (t # ts) =
     (case feed pp st t of
        Inl err \<Rightarrow> ([], Inl err)
      | Inr (recs, st') \<Rightarrow>
          (let (later, r) = feed_all pp st' ts in (recs @ later, r)))"

text \<open>At the end of the input the document must be complete.\<close>

definition finish :: "py_error + pstate \<Rightarrow> py_error option" where
  "finish r =
     (case r of
        Inl err \<Rightarrow> Some err
      | Inr st \<Rightarrow> if stack st = [] \<and> root st \<noteq> None then None else Some XMLSyntaxError)"

definition parse_events :: "pubmed_parser option \<Rightarrow> token list \<Rightarrow> jrecord list \<times> py_error option" where
  "parse_events pp toks = (let (recs, r) = feed_all pp initial toks in (recs, finish r))"

subsection \<open>Files\<close>

text \<open>
  A path is its directory and its final component (\<open>Path.parent\<close>, \<open>Path.name\<close>).
  A file is a compressed shard or a text file of lines. The file system maps paths to
  files; directories and permissions are not modelled, so \<open>mkdir\<close>, \<open>open(tmp, "w")\<close>
  and \<open>replace\<close> succeed.
\<close>

record path =
  parent :: "string list"
  name :: string

datatype content = Shard "token list" | Lines "string list"

type_synonym fs = "path \<Rightarrow> content option"

text \<open>\<open>PurePath.suffix\<close>: from the last dot of the name on, unless that dot is the first or the last character.\<close>

definition suffix :: "string \<Rightarrow> string" where
  "suffix nm =
     (let after = takeWhile (\<lambda>c. c \<noteq> CHR ''.'') (rev nm)
      in if CHR ''.'' \<notin> set nm \<or> after = [] \<or> length after + 1 = length nm then []
         else CHR ''.'' # rev after)"

text \<open>\<open>PurePath.with_suffix\<close>.\<close>

definition with_suffix :: "path \<Rightarrow> string \<Rightarrow> py_error + path" where
  "with_suffix p suf =
     (if CHR ''/'' \<in> set suf \<or> (suf \<noteq> [] \<and> hd suf \<noteq> CHR ''.'') \<or> suf = ''.'' then Inl ValueError
      else if name p = [] then Inl ValueError
      else (let old_suffix = suffix (name p)
            in Inr (p\<lparr>name := take (length (name p) - length old_suffix) (name p) @ suf\<rparr>)))"

text \<open>
  \<open>iter_records_from_xml_gz\<close>: the records yielded, and the error that ended the
  generator if one did. \<open>gzip\<close> reads an empty file as an empty stream, which is no
  document for the parser (\<open>XMLSyntaxError\<close>); it raises \<open>BadGzipFile\<close> on other
  text, and \<open>gzip.open\<close> raises \<open>FileNotFoundError\<close> where there is no file (both
  are \<open>OSError\<close>).
\<close>

definition iter_records_from_xml_gz ::
    "pubmed_parser option \<Rightarrow> fs \<Rightarrow> path \<Rightarrow> jrecord list \<times> py_error option" where
  "iter_records_from_xml_gz pp files gz_path =
     (case files gz_path of
        Some (Shard toks) \<Rightarrow> parse_events pp toks
      | Some (Lines []) \<Rightarrow> parse_events pp []
      | Some (Lines (l # ls)) \<Rightarrow> ([], Some OSError)
      | None \<Rightarrow> ([], Some OSError))"

text \<open>
  \<open>xml_gz_to_jsonl\<close>. \<open>json.dumps(rec, ensure_ascii=False)\<close> is the parameter
  \<open>dumps\<close>. The result is the error that left the function, if any, and the file
  system afterwards.
\<close>

definition xml_gz_to_jsonl ::
    "(jrecord \<Rightarrow> string) \<Rightarrow> pubmed_parser option \<Rightarrow> fs \<Rightarrow> path \<Rightarrow> path \<Rightarrow> py_error option \<times> fs" where
  "xml_gz_to_jsonl dumps pp files gz_path jsonl_path =
     (case with_suffix jsonl_path ''.jsonl.partial'' of
        Inl err \<Rightarrow> (Some err, files)
      | Inr tmp \<Rightarrow>
          (let opened = files(tmp \<mapsto> Lines []);
               (recs, err) = iter_records_from_xml_gz pp opened gz_path;
               written = opened(tmp \<mapsto> Lines (map (\<lambda>r. dumps r @ [CHR 0x0A]) recs))
           in case err of
                Some e \<Rightarrow> (Some e, written)
              | None \<Rightarrow> (None, written(jsonl_path := written tmp, tmp := None))))"

subsection \<open>Notions used in the statements\<close>

text \<open>A text is blank when it is absent, empty or made of whitespace only.\<close>

definition blank :: "string option \<Rightarrow> bool" where
  "blank x = (case x of None \<Rightarrow> True | Some s \<Rightarrow> list_all py_isspace s)"

text \<open>A deletion list with four identifier children, two of them blank.\<close>

definition del3 :: xml where
  "del3 = Elem ''DeleteCitation'' [] None
     [Elem ''PMID'' [(''Version'', ''1'')] (Some '' 11 '') [] None,
      Elem ''PMID'' [] None [] None,
      Elem ''PMID'' [] (Some ''  '') [] None,
      Elem ''PMID'' [] (Some ''12'') [] (Some [CHR 0x0A])] None"

definition del2 :: xml where
  "del2 = Elem ''DeleteCitation'' [] None
     [Elem ''PMID'' [] (Some ''31'') [] None,
      Elem ''PMID'' [] None [] None] None"

definition citation :: "string \<Rightarrow> token list" where
  "citation p = [Start ''MedlineCitation'' [], Start ''PMID'' [], Chars p, End, End]"

definition demo_tokens :: "token list" where
  "demo_tokens =
     [Start ''PubmedArticleSet'' []] @ citation ''1''
     @ [Start ''MedlineCitation'' [], Start ''Article'' [], End, End,
        Start ''DeleteCitation'' [], Start ''PMID'' [], Chars ''9'', End, End, End]"

definition demo_gz :: path where
  "demo_gz = \<lparr>parent = [''in''], name = ''s.xml.gz''\<rparr>"

definition no_id :: xml where
  "no_id = Elem ''MedlineCitation'' [] None [Elem ''Article'' [] None [] None] None"

definition with_article_id :: xml where
  "with_article_id = Elem ''MedlineCitation'' [] None
     [Elem ''PMID'' [] None [] None,
      Elem ''PubmedData'' [] None
        [Elem ''ArticleIdList'' [] None
           [Elem ''ArticleId'' [(''IdType'', ''doi'')] (Some ''10.1/x'') [] None,
            Elem ''ArticleId'' [(''IdType'', ''pubmed'')] (Some '' 77 '') [] None] None] None] None"

definition with_pmid :: xml where
  "with_pmid = Elem ''MedlineCitation'' [] None
     [Elem ''PMID'' [(''Version'', ''1'')] (Some ''  4242 '') [] None] None"

definition bad_tokens :: "token list" where
  "bad_tokens = [Start ''PubmedArticleSet'' []] @ citation ''1'' @ [Malformed] @ citation ''2'' @ [End]"

definition full_record :: "string \<Rightarrow> jrecord" where
  "full_record p = \<lparr>pmid = p, docno = p, title = [], abstract = [], mesh_terms = [],
                    keyword_list = [], is_deleted = False\<rparr>"

definition out_path :: path where
  "out_path = \<lparr>parent = [''out''], name = ''s.jsonl''\<rparr>"

definition old_run :: content where
  "old_run = Lines [''old line'']"

definition failed_run :: "py_error option \<times> fs" where
  "failed_run =
     xml_gz_to_jsonl pmid None [demo_gz \<mapsto> Shard bad_tokens, out_path \<mapsto> old_run] demo_gz out_path"

definition good_run :: "py_error option \<times> fs" where
  "good_run =
     xml_gz_to_jsonl pmid None [demo_gz \<mapsto> Shard demo_tokens, out_path \<mapsto> old_run] demo_gz out_path"

text \<open>A string is trimmed when it neither starts nor ends with whitespace.\<close>

definition trimmed :: "string \<Rightarrow> bool" where
  "trimmed s = (s = [] \<or> (\<not> py_isspace (hd s) \<and> \<not> py_isspace (last s)))"

text \<open>
  The claim's words for the fallback of \<open>parse_keywords\<close>: the flattened text of
  every \<open>Keyword\<close> of a \<open>KeywordList\<close> found anywhere below the citation,
  trimmed, the empty ones left out.
\<close>

definition keywords_spec :: "xml \<Rightarrow> string list" where
  "keywords_spec medline =
     filter (\<lambda>t. t \<noteq> []) (map flatten (findall_desc medline ''KeywordList'' ''Keyword''))"

text \<open>A citation whose keywords carry inline markup.\<close>

definition markup_keywords :: xml where
  "markup_keywords = Elem ''MedlineCitation'' [] None
     [Elem ''PMID'' [] (Some ''5'') [] None,
      Elem ''KeywordList'' [(''Owner'', ''NOTNLM'')] None
        [Elem ''Keyword'' [] (Some ''imaging '')
           [Elem ''i'' [] (Some ''in vivo'') [] None] None,
         Elem ''Keyword'' [] None
           [Elem ''i'' [] (Some ''E. coli'') [] (Some '' infection'')] None] None] None"

definition plain_keywords :: xml where
  "plain_keywords = Elem ''MedlineCitation'' [] None
     [Elem ''PMID'' [] (Some ''6'') [] None,
      Elem ''KeywordList'' [] None
        [Elem ''Keyword'' [] (Some '' heart '') [] None,
         Elem ''Keyword'' [] (Some '' '') [] None,
         Elem ''Keyword'' [] (Some ''lung'') [] None] None] None"





section \<open>Properties\<close>

subsection \<open>Stripping\<close>

lemma py_strip_Nil [simp]: "py_strip [] = []"
  by (simp add: py_strip_def)

lemma dropWhile_all_iff: "(\<forall>x \<in> set (dropWhile P xs). P x) \<longleftrightarrow> (\<forall>x \<in> set xs. P x)"
  by (induction xs) auto

lemma py_strip_empty_iff: "py_strip s = [] \<longleftrightarrow> (\<forall>c \<in> set s. py_isspace c)"
  by (simp add: py_strip_def dropWhile_all_iff)

lemma blank_iff: "blank x \<longleftrightarrow> \<not> (truthy x \<and> py_strip (or_empty x) \<noteq> [])"
  by (cases x) (auto simp: blank_def py_strip_empty_iff list_all_iff)

lemma findall_path_single: "findall_path e [t] = filter (\<lambda>c. tag c = t) (children e)"
  by simp


subsection \<open>Tombstones\<close>

lemma tombstones_eq:
  "tombstones e =
     map (\<lambda>n. tombstone (py_strip (or_empty (etext n))))
       (filter (\<lambda>n. tag n = ''PMID'' \<and> \<not> blank (etext n)) (children e))"
  by (simp add: tombstones_def blank_iff conj_commute)

lemma loop_body_delete:
  "tag e = ''DeleteCitation'' \<Longrightarrow> loop_body pp e = (tombstones e, clear e)"
  by (simp add: loop_body_def)

text \<open>
  C10. In a \<open>DeleteCitation\<close> element, a \<open>PMID\<close> child whose text is blank (absent,
  empty or whitespace only) yields no tombstone: the tombstones are those of the
  \<open>PMID\<close> children with a text that is not blank, in order, and the \<open>pmid\<close> and the
  \<open>docno\<close> of each are the stripped text of its child.
\<close>

theorem delete_citation_blank_skipped:
  assumes "tag e = ''DeleteCitation''"
  shows "map pmid (fst (loop_body pp e)) =
           map (\<lambda>n. py_strip (or_empty (etext n)))
             (filter (\<lambda>n. tag n = ''PMID'' \<and> \<not> blank (etext n)) (children e))
         \<and> map docno (fst (loop_body pp e)) = map pmid (fst (loop_body pp e))
         \<and> ((\<forall>n \<in> set (children e). tag n = ''PMID'' \<longrightarrow> blank (etext n))
              \<longrightarrow> fst (loop_body pp e) = [])"
proof -
  have "fst (loop_body pp e) = tombstones e"
    using assms by (simp add: loop_body_delete)
  moreover have "(\<forall>n \<in> set (children e). tag n = ''PMID'' \<longrightarrow> blank (etext n))
      \<Longrightarrow> filter (\<lambda>n. tag n = ''PMID'' \<and> \<not> blank (etext n)) (children e) = []"
    by (auto simp: filter_empty_conv)
  ultimately show ?thesis
    by (simp add: tombstones_eq tombstone_def comp_def)
qed

theorem delete_citation_blank_skipped_witness:
  "tag del3 = ''DeleteCitation''
   \<and> map pmid (fst (loop_body None del3)) = [''11'', ''12'']
   \<and> map docno (fst (loop_body None del3)) = [''11'', ''12'']"
  using delete_citation_blank_skipped [of del3 None]
  by (simp add: del3_def blank_def py_isspace_def py_strip_def loop_body_def tombstones_def
      tombstone_def)

text \<open>
  C4 (as stated: k identifier children give exactly k tombstones). It fails for a
  deletion list with two \<open>PMID\<close> children of which one has no text: one tombstone.
\<close>

theorem delete_citation_count_counterexample:
  "length (findall_path del2 [''PMID'']) = 2 \<and> length (fst (loop_body None del2)) = 1"
  by (simp add: del2_def loop_body_def tombstones_def py_strip_def py_isspace_def)

text \<open>
  C4 (amended). A \<open>DeleteCitation\<close> element yields one tombstone for each \<open>PMID\<close>
  child whose text is not blank, and so exactly k tombstones for k \<open>PMID\<close> children
  when none of them is blank; each tombstone has \<open>is_deleted\<close> true, the stripped
  text of its child as \<open>pmid\<close>, and empty title, abstract, terms and keywords.
\<close>

theorem delete_citation_tombstones:
  assumes "tag e = ''DeleteCitation''"
  shows "fst (loop_body pp e) =
           map (\<lambda>n. \<lparr>pmid = py_strip (or_empty (etext n)), docno = py_strip (or_empty (etext n)),
                      title = [], abstract = [], mesh_terms = [], keyword_list = [],
                      is_deleted = True\<rparr>)
             (filter (\<lambda>n. tag n = ''PMID'' \<and> \<not> blank (etext n)) (children e))
         \<and> ((\<forall>n \<in> set (children e). tag n = ''PMID'' \<longrightarrow> \<not> blank (etext n))
              \<longrightarrow> length (fst (loop_body pp e)) = length (findall_path e [''PMID'']))"
proof -
  have eq: "fst (loop_body pp e) = tombstones e"
    using assms by (simp add: loop_body_delete)
  have "(\<forall>n \<in> set (children e). tag n = ''PMID'' \<longrightarrow> \<not> blank (etext n))
      \<Longrightarrow> filter (\<lambda>n. tag n = ''PMID'' \<and> \<not> blank (etext n)) (children e)
          = filter (\<lambda>n. tag n = ''PMID'') (children e)"
    by (rule filter_cong) auto
  then show ?thesis
    unfolding eq tombstones_eq by (simp add: tombstone_def)
qed

theorem delete_citation_tombstones_witness:
  "tag del3 = ''DeleteCitation''
   \<and> fst (loop_body None del3) =
       [\<lparr>pmid = ''11'', docno = ''11'', title = [], abstract = [], mesh_terms = [],
          keyword_list = [], is_deleted = True\<rparr>,
        \<lparr>pmid = ''12'', docno = ''12'', title = [], abstract = [], mesh_terms = [],
          keyword_list = [], is_deleted = True\<rparr>]"
  using delete_citation_tombstones [of del3 None]
  by (simp add: del3_def blank_def py_isspace_def py_strip_def loop_body_def tombstones_def
      tombstone_def)

subsection \<open>Identifiers\<close>

lemma tombstones_pmid: "r \<in> set (tombstones e) \<Longrightarrow> pmid r \<noteq> [] \<and> docno r = pmid r"
  by (auto simp: tombstones_def tombstone_def)

lemma parse_article_record_pmid:
  "parse_article_record pp e = Some r \<Longrightarrow> pmid r = parse_pmid e \<and> docno r = pmid r \<and> pmid r \<noteq> []"
  by (auto simp: parse_article_record_def Let_def split: if_splits)

lemma loop_body_pmid:
  "r \<in> set (fst (loop_body pp e)) \<Longrightarrow> pmid r \<noteq> [] \<and> docno r = pmid r"
  by (cases "parse_article_record pp e")
     (auto simp: loop_body_def dest: tombstones_pmid parse_article_record_pmid split: if_splits)

lemma feed_pmid:
  "feed pp st t = Inr (recs, st') \<Longrightarrow> r \<in> set recs \<Longrightarrow> pmid r \<noteq> [] \<and> docno r = pmid r"
proof (cases t)
  case End
  assume a: "feed pp st t = Inr (recs, st')" "r \<in> set recs"
  from a(1) End obtain e es where "stack st = e # es" "recs = fst (loop_body pp e)"
    by (auto split: list.splits prod.splits)
  with a(2) show ?thesis by (auto dest: loop_body_pmid)
qed (auto split: if_splits list.splits)

lemma feed_all_pmid:
  "r \<in> set (fst (feed_all pp st ts)) \<Longrightarrow> pmid r \<noteq> [] \<and> docno r = pmid r"
proof (induction ts arbitrary: st)
  case Nil
  then show ?case by simp
next
  case (Cons t ts)
  show ?case
  proof (cases "feed pp st t")
    case (Inl err)
    with Cons.prems show ?thesis by simp
  next
    case (Inr p)
    obtain recs st' where p: "p = (recs, st')" by (cases p)
    from Cons.prems Inr p have "r \<in> set recs \<or> r \<in> set (fst (feed_all pp st' ts))"
      by (auto split: prod.splits)
    then show ?thesis
      using Cons.IH [of st'] feed_pmid [of pp st t recs st' r] Inr p by auto
  qed
qed

lemma parse_events_pmid:
  "r \<in> set (fst (parse_events pp toks)) \<Longrightarrow> pmid r \<noteq> [] \<and> docno r = pmid r"
  using feed_all_pmid [of r pp initial toks]
  by (simp add: parse_events_def split_beta)

lemma iter_records_pmid:
  "r \<in> set (fst (iter_records_from_xml_gz pp files gz_path)) \<Longrightarrow> pmid r \<noteq> [] \<and> docno r = pmid r"
  by (auto simp: iter_records_from_xml_gz_def split: option.splits content.splits list.splits
           dest: parse_events_pmid)

text \<open>
  C3. Every record that \<open>iter_records_from_xml_gz\<close> yields has a non-empty \<open>pmid\<close>;
  and at the end event of a \<open>MedlineCitation\<close> element for which \<open>parse_pmid\<close> finds
  no identifier the reader goes on (no error) and nothing is yielded.
\<close>

theorem yielded_ids_nonempty:
  "(\<forall>r \<in> set (fst (iter_records_from_xml_gz pp files gz_path)). pmid r \<noteq> [])
   \<and> (tag e = ''MedlineCitation'' \<and> parse_pmid e = []
        \<longrightarrow> parse_article_record pp e = None
            \<and> feed pp \<lparr>stack = e # p # ps, root = None, cleared = c\<rparr> End
                = Inr ([], \<lparr>stack = add_child (clear e) p # ps, root = None, cleared = True\<rparr>))"
  by (auto simp: loop_body_def released_def parse_article_record_def dest: iter_records_pmid)

lemmas eval_defs =
  citation_def initial_def parse_events_def finish_def iter_records_from_xml_gz_def
  loop_body_def tombstones_def tombstone_def clear_def add_chars_def add_child_def
  parse_article_record_def parse_pmid_def pmid_fallback_def find_path_def find_attr_def
  first_of_def parse_title_abstract_def parse_mesh_terms_def mesh_item_def
  keywords_fallback_def findall_desc_def segment_parts_def segment_label_def attrib_get_def
  flatten_def py_strip_def py_isspace_def xml_space_def released_def Let_def

theorem yielded_ids_nonempty_witness:
  "map pmid (fst (iter_records_from_xml_gz None [demo_gz \<mapsto> Shard demo_tokens] demo_gz))
     = [''1'', ''9'']
   \<and> tag no_id = ''MedlineCitation'' \<and> parse_pmid no_id = []
   \<and> feed None \<lparr>stack = [no_id, Elem ''PubmedArticleSet'' [] None [] None], root = None,
                  cleared = False\<rparr> End
       = Inr ([], \<lparr>stack = [Elem ''PubmedArticleSet'' [] None [clear no_id] None], root = None,
                    cleared = True\<rparr>)"
  using yielded_ids_nonempty
    [of None "[demo_gz \<mapsto> Shard demo_tokens]" demo_gz no_id
        "Elem ''PubmedArticleSet'' [] None [] None" "[]" False]
  by (simp add: demo_tokens_def no_id_def eval_defs)

subsection \<open>Identifier resolution\<close>

text \<open>
  C6. The identifier of a citation element is the stripped text of its first direct
  \<open>PMID\<close> child when that child exists and its text is not empty; otherwise it is the
  stripped text of the \<open>ArticleId\<close> entry of kind \<open>pubmed\<close> in
  \<open>PubmedData/ArticleIdList\<close> when there is one; otherwise it is empty. With an
  empty identifier there is no record.
\<close>

theorem identifier_resolution:
  "(\<forall>p. find_path medline [''PMID''] = Some p \<and> truthy (etext p)
        \<longrightarrow> parse_pmid medline = py_strip (or_empty (etext p)))
   \<and> ((\<forall>p. find_path medline [''PMID''] = Some p \<longrightarrow> \<not> truthy (etext p))
        \<longrightarrow> (\<forall>ids x. find_path medline [''PubmedData'', ''ArticleIdList''] = Some ids
                    \<and> find_attr ids ''ArticleId'' ''IdType'' ''pubmed'' = Some x
                  \<longrightarrow> parse_pmid medline = py_strip (or_empty (etext x)))
          \<and> ((\<forall>ids. find_path medline [''PubmedData'', ''ArticleIdList''] = Some ids
                  \<longrightarrow> find_attr ids ''ArticleId'' ''IdType'' ''pubmed'' = None)
                \<longrightarrow> parse_pmid medline = []))
   \<and> (parse_pmid medline = [] \<longrightarrow> parse_article_record pp medline = None)"
proof (intro conjI allI impI)
  fix p assume "find_path medline [''PMID''] = Some p \<and> truthy (etext p)"
  then show "parse_pmid medline = py_strip (or_empty (etext p))"
    by (simp add: parse_pmid_def)
next
  fix ids x
  assume a: "\<forall>p. find_path medline [''PMID''] = Some p \<longrightarrow> \<not> truthy (etext p)"
    and b: "find_path medline [''PubmedData'', ''ArticleIdList''] = Some ids
            \<and> find_attr ids ''ArticleId'' ''IdType'' ''pubmed'' = Some x"
  from a have "parse_pmid medline = pmid_fallback medline"
    by (simp add: parse_pmid_def split: option.splits)
  also from b have "\<dots> = py_strip (or_empty (etext x))"
    by (cases "etext x") (simp_all add: pmid_fallback_def)
  finally show "parse_pmid medline = py_strip (or_empty (etext x))" .
next
  assume a: "\<forall>p. find_path medline [''PMID''] = Some p \<longrightarrow> \<not> truthy (etext p)"
    and b: "\<forall>ids. find_path medline [''PubmedData'', ''ArticleIdList''] = Some ids
              \<longrightarrow> find_attr ids ''ArticleId'' ''IdType'' ''pubmed'' = None"
  from a have "parse_pmid medline = pmid_fallback medline"
    by (simp add: parse_pmid_def split: option.splits)
  also from b have "\<dots> = []"
    by (simp add: pmid_fallback_def split: option.splits)
  finally show "parse_pmid medline = []" .
next
  assume "parse_pmid medline = []"
  then show "parse_article_record pp medline = None"
    by (simp add: parse_article_record_def)
qed

theorem identifier_resolution_witness:
  "parse_pmid with_pmid = ''4242''
   \<and> find_path with_article_id [''PMID''] = Some (Elem ''PMID'' [] None [] None)
   \<and> parse_pmid with_article_id = ''77''
   \<and> parse_pmid no_id = [] \<and> parse_article_record None no_id = None"
  using identifier_resolution [of with_pmid None] identifier_resolution [of with_article_id None]
    identifier_resolution [of no_id None]
  by (simp add: with_pmid_def with_article_id_def no_id_def eval_defs)

subsection \<open>Markup defects\<close>

lemma feed_all_append:
  "feed_all pp st (ts @ us) =
     (case feed_all pp st ts of
        (recs, Inl err) \<Rightarrow> (recs, Inl err)
      | (recs, Inr st') \<Rightarrow> (let (later, r) = feed_all pp st' us in (recs @ later, r)))"
  by (induction ts arbitrary: st) (auto split: sum.splits prod.splits)

text \<open>
  A markup defect ends the generator with \<open>XMLSyntaxError\<close> (unless an error came
  earlier): what follows the defect is never read.
\<close>

lemma malformed_stops:
  "\<exists>err. feed_all pp st (pre @ Malformed # post) = (fst (feed_all pp st pre), Inl err)"
  by (cases "feed_all pp st pre") (auto simp: feed_all_append split: sum.splits)

lemma malformed_is_fatal:
  "Malformed \<in> set toks \<Longrightarrow> snd (parse_events pp toks) \<noteq> None"
proof -
  assume "Malformed \<in> set toks"
  then obtain pre post where "toks = pre @ Malformed # post"
    by (auto simp: in_set_conv_decomp)
  then show ?thesis
    using malformed_stops [of pp initial pre post]
    by (auto simp: parse_events_def finish_def)
qed

text \<open>
  C1 (the code at a failing input). A shard with a citation, a markup defect and a
  second citation: the first record is yielded, then \<open>XMLSyntaxError\<close> is raised and
  the second citation is never reached.
\<close>

theorem malformed_markup_aborts:
  "iter_records_from_xml_gz None [demo_gz \<mapsto> Shard bad_tokens] demo_gz
     = ([full_record ''1''], Some XMLSyntaxError)"
  by (simp add: bad_tokens_def full_record_def eval_defs)

subsection \<open>The temporary file and its promotion\<close>

lemma suffix_partial:
  assumes "nm = pre @ ''.jsonl.partial''"
  shows "suffix nm = [] \<or> suffix nm = ''.partial''"
proof -
  have "rev nm = ''laitrap.lnosj.'' @ rev pre"
    using assms by simp
  then have "takeWhile (\<lambda>c. c \<noteq> CHR ''.'') (rev nm) = ''laitrap''"
    by simp
  then show ?thesis
    by (simp add: suffix_def Let_def)
qed

lemma with_suffix_name:
  "with_suffix p ''.jsonl.partial'' = Inr tmp \<Longrightarrow>
     name tmp = take (length (name p) - length (suffix (name p))) (name p) @ ''.jsonl.partial''"
  by (auto simp: with_suffix_def Let_def split: if_splits)

lemma with_suffix_differs:
  assumes "with_suffix p ''.jsonl.partial'' = Inr tmp"
  shows "tmp \<noteq> p"
proof
  assume "tmp = p"
  with with_suffix_name [OF assms]
  have eq: "name p = take (length (name p) - length (suffix (name p))) (name p) @ ''.jsonl.partial''"
    by simp
  then have "suffix (name p) = [] \<or> suffix (name p) = ''.partial''"
    by (rule suffix_partial)
  moreover from eq have "length (name p) =
      length (take (length (name p) - length (suffix (name p))) (name p) @ ''.jsonl.partial'')"
    by simp
  ultimately show False
    by (auto simp: min_def split: if_splits)
qed

lemma iter_records_other_path:
  "gz_path \<noteq> tmp \<Longrightarrow>
     iter_records_from_xml_gz pp (files(tmp \<mapsto> c)) gz_path = iter_records_from_xml_gz pp files gz_path"
  by (simp add: iter_records_from_xml_gz_def)

lemma iter_records_emptied:
  "iter_records_from_xml_gz pp (files(tmp \<mapsto> Lines [])) tmp = ([], Some XMLSyntaxError)"
  by (simp add: iter_records_from_xml_gz_def parse_events_def finish_def initial_def)

lemma with_suffix_partial:
  "name p \<noteq> [] \<Longrightarrow>
     with_suffix p ''.jsonl.partial''
       = Inr (p\<lparr>name := take (length (name p) - length (suffix (name p))) (name p) @ ''.jsonl.partial''\<rparr>)"
  by (simp add: with_suffix_def Let_def)

lemma with_suffix_empty_name:
  "name p = [] \<Longrightarrow> with_suffix p ''.jsonl.partial'' = Inl ValueError"
  by (simp add: with_suffix_def)

lemma with_suffix_parent:
  "with_suffix p suf = Inr tmp \<Longrightarrow> parent tmp = parent p"
  by (auto simp: with_suffix_def Let_def split: if_splits)

text \<open>The outcome of \<open>xml_gz_to_jsonl\<close> once the temporary path is known.\<close>

lemma xml_gz_to_jsonl_run:
  assumes tmp: "with_suffix jsonl_path ''.jsonl.partial'' = Inr tmp"
    and it: "iter_records_from_xml_gz pp (files(tmp \<mapsto> Lines [])) gz_path = (recs, err)"
  shows "xml_gz_to_jsonl dumps pp files gz_path jsonl_path =
           (err,
            if err = None
            then (files(tmp := None))(jsonl_path \<mapsto> Lines (map (\<lambda>r. dumps r @ [CHR 0x0A]) recs))
            else files(tmp \<mapsto> Lines (map (\<lambda>r. dumps r @ [CHR 0x0A]) recs)))"
proof -
  have ne: "tmp \<noteq> jsonl_path" using tmp by (rule with_suffix_differs)
  show ?thesis
  proof (cases err)
    case None
    have "(files(tmp \<mapsto> Lines (map (\<lambda>r. dumps r @ [CHR 0x0A]) recs),
                 jsonl_path \<mapsto> Lines (map (\<lambda>r. dumps r @ [CHR 0x0A]) recs), tmp := None))
          = (files(tmp := None))(jsonl_path \<mapsto> Lines (map (\<lambda>r. dumps r @ [CHR 0x0A]) recs))"
      using ne by (auto simp: fun_eq_iff)
    with None tmp it ne show ?thesis
      by (simp add: xml_gz_to_jsonl_def)
  next
    case (Some e)
    with tmp it show ?thesis
      by (simp add: xml_gz_to_jsonl_def)
  qed
qed

text \<open>
  C2. \<open>xml_gz_to_jsonl\<close> writes the line of every record to the temporary path
  \<open>jsonl_path.with_suffix(".jsonl.partial")\<close>, which is never the final path. When
  the traversal of the shard ends without an error the function succeeds, the final
  path holds exactly the lines of all the records and the temporary path is gone.
  When the traversal raises, the function raises the same error, the final path is as
  it was before (absent, or the file of an earlier run) and the temporary path holds
  the lines written so far. No other path changes. (A final path with an empty name
  has no suffix to replace: \<open>ValueError\<close>, and nothing is written.)
\<close>

theorem final_path_atomic:
  assumes "xml_gz_to_jsonl dumps pp files gz_path jsonl_path = (res, files')"
  shows "(res \<noteq> None \<longrightarrow> files' jsonl_path = files jsonl_path)
       \<and> (res = None \<longrightarrow>
            snd (iter_records_from_xml_gz pp files gz_path) = None
            \<and> files' jsonl_path =
                Some (Lines (map (\<lambda>r. dumps r @ [CHR 0x0A])
                               (fst (iter_records_from_xml_gz pp files gz_path)))))
       \<and> (snd (iter_records_from_xml_gz pp files gz_path) \<noteq> None \<longrightarrow> res \<noteq> None)
       \<and> (name jsonl_path = [] \<longrightarrow> res = Some ValueError \<and> files' = files)
       \<and> (name jsonl_path \<noteq> [] \<longrightarrow>
            (\<exists>tmp. with_suffix jsonl_path ''.jsonl.partial'' = Inr tmp
               \<and> tmp \<noteq> jsonl_path \<and> parent tmp = parent jsonl_path
               \<and> (\<forall>q. q \<noteq> tmp \<and> q \<noteq> jsonl_path \<longrightarrow> files' q = files q)
               \<and> (gz_path \<noteq> tmp \<longrightarrow>
                    res = snd (iter_records_from_xml_gz pp files gz_path)
                    \<and> (snd (iter_records_from_xml_gz pp files gz_path) = None \<longrightarrow>
                         res = None
                         \<and> files' jsonl_path =
                             Some (Lines (map (\<lambda>r. dumps r @ [CHR 0x0A])
                                            (fst (iter_records_from_xml_gz pp files gz_path))))
                         \<and> files' tmp = None)
                    \<and> (snd (iter_records_from_xml_gz pp files gz_path) \<noteq> None \<longrightarrow>
                         files' tmp =
                           Some (Lines (map (\<lambda>r. dumps r @ [CHR 0x0A])
                                          (fst (iter_records_from_xml_gz pp files gz_path))))))
               \<and> (gz_path = tmp \<longrightarrow> res = Some XMLSyntaxError \<and> files' tmp = Some (Lines []))))"
proof (cases "name jsonl_path = []")
  case True
  then have "xml_gz_to_jsonl dumps pp files gz_path jsonl_path = (Some ValueError, files)"
    by (simp add: xml_gz_to_jsonl_def with_suffix_empty_name)
  with assms True show ?thesis by auto
next
  case False
  define tmp where
    "tmp = jsonl_path\<lparr>name := take (length (name jsonl_path) - length (suffix (name jsonl_path)))
                                  (name jsonl_path) @ ''.jsonl.partial''\<rparr>"
  have tmp: "with_suffix jsonl_path ''.jsonl.partial'' = Inr tmp"
    using False by (simp add: tmp_def with_suffix_partial)
  have ne: "tmp \<noteq> jsonl_path" using tmp by (rule with_suffix_differs)
  have par: "parent tmp = parent jsonl_path" using tmp by (rule with_suffix_parent)
  show ?thesis
  proof (cases "gz_path = tmp")
    case True
    have "xml_gz_to_jsonl dumps pp files gz_path jsonl_path
            = (Some XMLSyntaxError, files(tmp \<mapsto> Lines []))"
      using xml_gz_to_jsonl_run [OF tmp, of pp files gz_path "[]" "Some XMLSyntaxError" dumps] True
      by (simp add: iter_records_emptied)
    with assms have r: "res = Some XMLSyntaxError" "files' = files(tmp \<mapsto> Lines [])"
      by simp_all
    show ?thesis
      unfolding r using False tmp ne par True by auto
  next
    case neq: False
    obtain recs err where it: "iter_records_from_xml_gz pp files gz_path = (recs, err)"
      by (cases "iter_records_from_xml_gz pp files gz_path")
    with neq have "iter_records_from_xml_gz pp (files(tmp \<mapsto> Lines [])) gz_path = (recs, err)"
      by (simp add: iter_records_other_path)
    from xml_gz_to_jsonl_run [OF tmp this, of dumps] assms
    have r: "res = err"
      "files' = (if err = None
                 then (files(tmp := None))(jsonl_path \<mapsto> Lines (map (\<lambda>r. dumps r @ [CHR 0x0A]) recs))
                 else files(tmp \<mapsto> Lines (map (\<lambda>r. dumps r @ [CHR 0x0A]) recs)))"
      by simp_all
    show ?thesis
    proof (cases err)
      case None
      with r it False tmp ne par neq show ?thesis by auto
    next
      case (Some e)
      with r it False tmp ne par neq show ?thesis by auto
    qed
  qed
qed

theorem final_path_atomic_witness:
  "fst failed_run = Some XMLSyntaxError
   \<and> snd failed_run out_path = Some old_run
   \<and> snd failed_run \<lparr>parent = [''out''], name = ''s.jsonl.partial''\<rparr> = Some (Lines [[CHR ''1'', CHR 0x0A]])
   \<and> fst good_run = None
   \<and> snd good_run out_path = Some (Lines [[CHR ''1'', CHR 0x0A], [CHR ''9'', CHR 0x0A]])
   \<and> snd good_run \<lparr>parent = [''out''], name = ''s.jsonl.partial''\<rparr> = None"
  using final_path_atomic [of pmid None "[demo_gz \<mapsto> Shard bad_tokens, out_path \<mapsto> old_run]"
      demo_gz out_path "fst failed_run" "snd failed_run"]
    final_path_atomic [of pmid None "[demo_gz \<mapsto> Shard demo_tokens, out_path \<mapsto> old_run]"
      demo_gz out_path "fst good_run" "snd good_run"]
  by (simp add: failed_run_def good_run_def xml_gz_to_jsonl_def with_suffix_def suffix_def
      out_path_def demo_gz_def old_run_def bad_tokens_def demo_tokens_def eval_defs)

subsection \<open>More on stripping\<close>

lemma last_dropWhile: "dropWhile P xs \<noteq> [] \<Longrightarrow> last (dropWhile P xs) = last xs"
  by (induction xs) (auto split: if_splits)

lemma py_strip_trimmed:
  assumes "trimmed s"
  shows "py_strip s = s"
proof (cases "s = []")
  case True
  then show ?thesis by simp
next
  case False
  with assms have h: "\<not> py_isspace (hd s)" and l: "\<not> py_isspace (last s)"
    by (simp_all add: trimmed_def)
  from False h have a: "dropWhile py_isspace s = s"
    by (simp add: dropWhile_eq_self_iff)
  from False l have "dropWhile py_isspace (rev s) = rev s"
    by (simp add: dropWhile_eq_self_iff hd_rev)
  with a show ?thesis by (simp add: py_strip_def)
qed

lemma trimmed_py_strip: "trimmed (py_strip s)"
proof (cases "py_strip s = []")
  case True
  then show ?thesis by (simp add: trimmed_def)
next
  case False
  let ?d = "dropWhile py_isspace"
  from False have ne: "?d (rev (?d s)) \<noteq> []" by (simp add: py_strip_def)
  have ne2: "?d s \<noteq> []"
  proof
    assume a: "?d s = []"
    have "?d (rev (?d s)) = []" unfolding a by simp
    with ne show False by simp
  qed
  have "last (py_strip s) = hd (?d (rev (?d s)))"
    using ne by (simp add: py_strip_def last_rev)
  then have l: "\<not> py_isspace (last (py_strip s))"
    using hd_dropWhile [OF ne] by simp
  have "hd (py_strip s) = last (?d (rev (?d s)))"
    using ne by (simp add: py_strip_def hd_rev)
  also have "\<dots> = last (rev (?d s))" using ne by (rule last_dropWhile)
  also have "\<dots> = hd (?d s)" using ne2 by (simp add: last_rev)
  finally have "\<not> py_isspace (hd (py_strip s))"
    using hd_dropWhile [OF ne2] by simp
  with l show ?thesis by (simp add: trimmed_def)
qed

lemma py_strip_idem: "py_strip (py_strip s) = py_strip s"
  by (rule py_strip_trimmed) (rule trimmed_py_strip)


subsection \<open>Keywords\<close>

lemma flatten_leaf:
  assumes "children kw = []"
  shows "flatten kw = py_strip (or_empty (etext kw))"
proof (cases kw)
  case (Elem t a x cs tx)
  with assms have cs: "cs = []" by simp
  show ?thesis
  proof (cases x)
    case None
    with Elem cs show ?thesis by (simp add: flatten_def)
  next
    case (Some s)
    show ?thesis
    proof (cases "py_strip s = []")
      case True
      with Elem cs Some show ?thesis by (simp add: flatten_def)
    next
      case False
      then have "s \<noteq> []" by auto
      with False Elem cs Some show ?thesis by (simp add: flatten_def py_strip_idem)
    qed
  qed
qed

text \<open>
  C7 (as stated). The fallback takes \<open>kw.text\<close>, the text before the first child
  element, not the flattened text: of \<open>imaging <i>in vivo</i>\<close> it keeps \<open>imaging\<close>,
  and \<open><i>E. coli</i> infection\<close> gives no keyword at all.
\<close>

theorem keywords_flattened_counterexample:
  "parse_keywords None markup_keywords = [''imaging'']
   \<and> keywords_spec markup_keywords = [''imaging in vivo'', ''E. coli infection'']"
  by (simp add: markup_keywords_def keywords_spec_def eval_defs)

text \<open>
  C7 (amended). When \<open>pubmed_parser\<close> is not installed or its \<open>parse_keywords\<close>
  raises, \<open>parse_keywords\<close> gives, in document order, the stripped leading text
  (the text before the first child element) of every \<open>Keyword\<close> child of a
  \<open>KeywordList\<close> found anywhere below the citation, the empty ones left out; this is
  the flattened text when no such \<open>Keyword\<close> has child elements.
\<close>

theorem keywords_fallback_text:
  assumes "pp = None \<or> (\<exists>lib. pp = Some lib \<and> pp_parse_keywords lib medline = Raises)"
  shows "parse_keywords pp medline =
           filter (\<lambda>t. t \<noteq> [])
             (map (\<lambda>kw. py_strip (or_empty (etext kw)))
                (concat (map (\<lambda>l. filter (\<lambda>k. tag k = ''Keyword'') (children l))
                           (filter (\<lambda>d. tag d = ''KeywordList'') (descendants medline)))))
         \<and> ((\<forall>kw \<in> set (findall_desc medline ''KeywordList'' ''Keyword''). children kw = [])
              \<longrightarrow> parse_keywords pp medline = keywords_spec medline)"
proof -
  let ?kws = "findall_desc medline ''KeywordList'' ''Keyword''"
  have fb: "parse_keywords pp medline = keywords_fallback medline"
    using assms by auto
  have sel: "?kws = concat (map (\<lambda>l. filter (\<lambda>k. tag k = ''Keyword'') (children l))
                           (filter (\<lambda>d. tag d = ''KeywordList'') (descendants medline)))"
    by (simp add: findall_desc_def)
  have leaf: "(\<forall>kw \<in> set ?kws. children kw = [])
      \<Longrightarrow> map (\<lambda>kw. py_strip (or_empty (etext kw))) ?kws = map flatten ?kws"
    by (rule map_cong) (simp_all add: flatten_leaf)
  have "keywords_fallback medline = filter (\<lambda>t. t \<noteq> []) (map (\<lambda>kw. py_strip (or_empty (etext kw))) ?kws)"
    by (simp only: keywords_fallback_def)
  with fb sel leaf show ?thesis
    by (simp only: keywords_spec_def) metis
qed

theorem keywords_fallback_text_witness:
  "parse_keywords None plain_keywords = [''heart'', ''lung'']
   \<and> keywords_spec plain_keywords = [''heart'', ''lung'']"
  using keywords_fallback_text [of None plain_keywords]
  by (simp add: plain_keywords_def keywords_spec_def eval_defs)

subsection \<open>The abstract\<close>














subsection \<open>Release of subtrees\<close>

lemma loop_body_released:
  "snd (loop_body pp e) = (if released e then clear e else e)"
  by (simp add: loop_body_def released_def)

lemma feed_end_attached:
  "feed pp \<lparr>stack = e # p # ps, root = r, cleared = c\<rparr> End =
     Inr (fst (loop_body pp e),
          \<lparr>stack = add_child (if released e then clear e else e) p # ps, root = r,
            cleared = released e\<rparr>)"
  using loop_body_released [of pp e] by (simp add: split_beta)

lemma add_child_twice:
  "add_child y (add_child x p) = Elem (tag p) (attrib p) (etext p) (children p @ [x, y]) (tail p)"
  by (simp add: add_child_def)






end
